theory Spec2Isabelle
  imports Main
begin

section \<open>Data model\<close>

text \<open>
  The pipeline of \<^verbatim>\<open>src/challenge.ts\<close>: download, extract, set up two tables, load two
  CSV files in batches, close the connection. Failures are values of \<open>error\<close>; the state of a
  JavaScript promise is a value of \<open>promise\<close> (\<open>Pending\<close>: not settled).
\<close>

datatype error = NetworkError | IOError | ExtractionError | ParseError | StorageError

datatype promise = Pending | Resolved | Rejected error

text \<open>
  A parsed CSV row is a \<^verbatim>\<open>Record<string, any>\<close>: the header names paired with the texts of
  the fields. The parser stream hands the loader a sequence of items: a row, or the failure
  of the parser on a malformed line.
\<close>

type_synonym row = "(string \<times> string) list"

datatype item = Row row | Bad

text \<open>
  Modelled from the spec: the CSV parser \<^verbatim>\<open>csv.parse({ headers: true })\<close> is the fast-csv
  package, whose code is not in the repository. The spec's words: the header row establishes
  the field names, every later row maps 1:1 to a record using those names as keys, and a row
  whose field count differs from the header's field count is malformed.
\<close>

definition parse_line :: "string list \<Rightarrow> string list \<Rightarrow> item" where
  "parse_line header fields =
     (if length fields = length header then Row (zip header fields) else Bad)"

fun csv_parse :: "string list list \<Rightarrow> item list" where
  "csv_parse [] = []"
| "csv_parse (header # lines) = map (parse_line header) lines"

section \<open>The streaming batch loader: processCSV and insertBatch\<close>

text \<open>
  \<^verbatim>\<open>processCSV\<close> (lines 113-138) registers three listeners on the parser stream and returns
  a promise. Its two \<^verbatim>\<open>async\<close> listeners suspend at \<^verbatim>\<open>await insertBatch(...)\<close>, so the
  load is a state machine driven by the events of the Node event loop. The state holds what
  the closure holds (\<open>batch\<close>, \<open>batchSize\<close>, the promise), the state of the stream
  (\<open>source\<close>: the items it has not delivered yet; \<open>flowing\<close>: set by \<^verbatim>\<open>pause()\<close> and
  \<^verbatim>\<open>resume()\<close>; \<open>ended\<close>; \<open>destroyed\<close>), the rows of the target table, the bulk inserts
  that have been issued and not answered (\<open>inflight\<close>, each with the snapshot of the batch
  that \<^verbatim>\<open>db.batchInsert\<close> received and the listener that awaits it), the rejections of the
  listeners' own promises, which nothing handles, and a trace of reads and inserts in the
  order they happen (instrumentation only: no step reads it).
\<close>

datatype handler = OnData | OnEnd

datatype action = Read row | InsertStart "row list" | InsertEnd bool

record loader =
  batchSize :: nat
  source :: "item list"
  flowing :: bool
  ended :: bool
  destroyed :: bool
  batch :: "row list"
  inflight :: "(row list \<times> handler) list"
  table :: "row list"
  result :: promise
  unhandled :: "error list"
  trace :: "action list"

text \<open>\<^verbatim>\<open>resolve()\<close> and \<^verbatim>\<open>reject(e)\<close>: a promise settles once, later calls do nothing.\<close>

definition settle :: "promise \<Rightarrow> loader \<Rightarrow> loader" where
  "settle p s = (if result s = Pending then s\<lparr>result := p\<rparr> else s)"

text \<open>
  \<^verbatim>\<open>insertBatch\<close> up to its \<^verbatim>\<open>await\<close> (line 107): the bulk insert is issued with the rows
  that the batch array holds at the call, and the calling listener is suspended.
\<close>

definition insertBatch :: "handler \<Rightarrow> loader \<Rightarrow> loader" where
  "insertBatch h s =
     s\<lparr>inflight := inflight s @ [(batch s, h)], trace := trace s @ [InsertStart (batch s)]\<rparr>"

text \<open>The \<^verbatim>\<open>'data'\<close> listener (lines 120-128) up to its \<^verbatim>\<open>await\<close>.\<close>

definition on_data :: "row \<Rightarrow> loader \<Rightarrow> loader" where
  "on_data r s =
     (let s1 = s\<lparr>batch := batch s @ [r], trace := trace s @ [Read r]\<rparr> in
      if length (batch s1) \<ge> batchSize s1
      then insertBatch OnData (s1\<lparr>flowing := False\<rparr>)
      else s1)"

text \<open>The \<^verbatim>\<open>'end'\<close> listener (lines 129-135) up to its \<^verbatim>\<open>await\<close>, or to its end.\<close>

definition on_end :: "loader \<Rightarrow> loader" where
  "on_end s = (if length (batch s) > 0 then insertBatch OnEnd s else settle Resolved s)"

text \<open>The \<^verbatim>\<open>'error'\<close> listener (line 136) is \<^verbatim>\<open>reject\<close> itself.\<close>

definition on_error :: "loader \<Rightarrow> loader" where
  "on_error s = settle (Rejected ParseError) s"

text \<open>
  The answer of the storage layer to the oldest bulk insert. On success the snapshot is in
  the table (\<^verbatim>\<open>db.batchInsert\<close> is one unit: all of its rows or none), \<^verbatim>\<open>insertBatch\<close>
  clears the batch array (line 109) and the listener continues: the \<^verbatim>\<open>'data'\<close> listener
  calls \<^verbatim>\<open>resume()\<close> (line 126), the \<^verbatim>\<open>'end'\<close> listener calls \<^verbatim>\<open>resolve()\<close> (line 134).
  On failure the \<^verbatim>\<open>await\<close> throws inside the \<^verbatim>\<open>async\<close> listener: the rest of
  \<^verbatim>\<open>insertBatch\<close> and of the listener is skipped and the listener's own promise is rejected,
  which no code observes.
\<close>

definition completed :: "bool \<Rightarrow> row list \<Rightarrow> handler \<Rightarrow> loader \<Rightarrow> loader" where
  "completed ok snap h s =
     (if ok then
        (let s1 = s\<lparr>table := table s @ snap, batch := [],
                     trace := trace s @ [InsertEnd True]\<rparr> in
         case h of OnData \<Rightarrow> s1\<lparr>flowing := True\<rparr> | OnEnd \<Rightarrow> settle Resolved s1)
      else s\<lparr>unhandled := unhandled s @ [StorageError],
              trace := trace s @ [InsertEnd False]\<rparr>)"

text \<open>
  The events of the event loop. \<open>Emit\<close>: the stream emits what is next. It hands a row to
  the \<^verbatim>\<open>'data'\<close> listener only while it is flowing. Its \<^verbatim>\<open>'end'\<close> does not wait for
  that: once the last row has been handed out the stream schedules \<^verbatim>\<open>'end'\<close> for the next
  tick, also when the \<^verbatim>\<open>'data'\<close> listener has just paused it, so \<^verbatim>\<open>'end'\<close> can arrive
  while the stream is paused and an insert is outstanding (or later, after \<^verbatim>\<open>resume()\<close>:
  both are schedules). \<open>Fault\<close>: the parser, which runs ahead of the listener and fills the
  stream's buffer also while the stream is paused, meets a malformed line: the stream emits
  \<^verbatim>\<open>'error'\<close> and is destroyed, the rows buffered before that line are never delivered.
  \<open>Complete ok\<close>: the storage layer answers the oldest insert that is outstanding.
  An event that is not enabled leaves the state as it is, so every list of events is a
  schedule.
\<close>

datatype event = Emit | Fault | Complete bool

definition enabled :: "event \<Rightarrow> loader \<Rightarrow> bool" where
  "enabled e s =
     (case e of
        Emit \<Rightarrow> \<not> ended s \<and> \<not> destroyed s \<and> (flowing s \<or> source s = [])
      | Fault \<Rightarrow> \<not> ended s \<and> \<not> destroyed s \<and> Bad \<in> set (source s)
      | Complete ok \<Rightarrow> inflight s \<noteq> [])"

definition emit :: "loader \<Rightarrow> loader" where
  "emit s =
     (case source s of
        [] \<Rightarrow> on_end (s\<lparr>ended := True\<rparr>)
      | Row r # rest \<Rightarrow> on_data r (s\<lparr>source := rest\<rparr>)
      | Bad # rest \<Rightarrow> on_error (s\<lparr>destroyed := True\<rparr>))"

definition step :: "event \<Rightarrow> loader \<Rightarrow> loader" where
  "step e s =
     (if \<not> enabled e s then s
      else case e of
        Emit \<Rightarrow> emit s
      | Fault \<Rightarrow> on_error (s\<lparr>destroyed := True\<rparr>)
      | Complete ok \<Rightarrow>
          (case inflight s of
             [] \<Rightarrow> s
           | (snap, h) # rest \<Rightarrow> completed ok snap h (s\<lparr>inflight := rest\<rparr>)))"

definition run :: "event list \<Rightarrow> loader \<Rightarrow> loader" where
  "run sched s = fold step sched s"

text \<open>
  \<^verbatim>\<open>processCSV(csvPath, db, table, batchSize)\<close> up to its \<^verbatim>\<open>return\<close>: an empty batch
  array, a stream over the items of the file that starts to flow when the \<^verbatim>\<open>'data'\<close>
  listener is attached, the table as the database holds it, and a pending promise.
\<close>

definition processCSV :: "item list \<Rightarrow> row list \<Rightarrow> nat \<Rightarrow> loader" where
  "processCSV items tbl n =
     \<lparr>batchSize = n, source = items, flowing = True, ended = False, destroyed = False,
      batch = [], inflight = [], table = tbl, result = Pending, unhandled = [],
      trace = []\<rparr>"



subsection \<open>What a trace and a state say\<close>

text \<open>
  \<open>quiet k as\<close>: along the trace, a row is read only when no insert is outstanding, and
  only an outstanding insert is answered (\<open>k\<close> inserts are outstanding at the start).
  \<open>outstanding k as\<close> is the number of inserts outstanding at the end of the trace.
\<close>

fun quiet :: "nat \<Rightarrow> action list \<Rightarrow> bool" where
  "quiet k [] = True"
| "quiet k (Read r # as) = (k = 0 \<and> quiet k as)"
| "quiet k (InsertStart b # as) = quiet (Suc k) as"
| "quiet k (InsertEnd ok # as) = (0 < k \<and> quiet (k - 1) as)"

fun outstanding :: "nat \<Rightarrow> action list \<Rightarrow> nat" where
  "outstanding k [] = k"
| "outstanding k (Read r # as) = outstanding k as"
| "outstanding k (InsertStart b # as) = outstanding (Suc k) as"
| "outstanding k (InsertEnd ok # as) = outstanding (k - 1) as"

text \<open>The batches handed to the storage layer, and the rows read, in order.\<close>

fun inserts :: "action list \<Rightarrow> row list list" where
  "inserts [] = []"
| "inserts (Read r # as) = inserts as"
| "inserts (InsertStart b # as) = b # inserts as"
| "inserts (InsertEnd ok # as) = inserts as"

fun reads :: "action list \<Rightarrow> row list" where
  "reads [] = []"
| "reads (Read r # as) = r # reads as"
| "reads (InsertStart b # as) = reads as"
| "reads (InsertEnd ok # as) = reads as"


text \<open>
  The invariants of the load. \<open>shape\<close>: the trace is quiet; the inserts outstanding are
  none, or the one the \<^verbatim>\<open>'data'\<close> listener awaits (then the stream is paused and the
  insert carries the batch array as it is now), or the one the \<^verbatim>\<open>'end'\<close> listener awaits
  (then the stream has ended), or both in this order. \<open>bounded\<close>: the batch array holds at
  most \<open>batchSize\<close> rows, fewer while the stream can hand out a row. \<open>accounted\<close>: every
  deliverable row is once in the table, the batch array or the stream.
\<close>

definition shape :: "loader \<Rightarrow> bool" where
  "shape s =
     (quiet 0 (trace s) \<and> outstanding 0 (trace s) = length (inflight s) \<and>
      (case inflight s of
         [] \<Rightarrow> True
       | (b, h) # rest \<Rightarrow>
           (if h = OnData
            then \<not> flowing s \<and> b = batch s \<and>
                 (case rest of
                    [] \<Rightarrow> True
                  | (b', h') # rest' \<Rightarrow> h' = OnEnd \<and> ended s \<and> rest' = [])
            else ended s \<and> rest = [])))"

definition bounded :: "loader \<Rightarrow> bool" where
  "bounded s =
     (length (batch s) \<le> batchSize s \<and>
      (flowing s \<and> \<not> ended s \<and> \<not> destroyed s \<longrightarrow> length (batch s) < batchSize s))"




section \<open>The schema initializer: setupTables\<close>

text \<open>
  The database is a map from table names to tables; a table has its columns, as
  \<^verbatim>\<open>createTable\<close> declared them, and its rows. \<^verbatim>\<open>db.schema.hasTable\<close> asks whether the
  name is bound. \<^verbatim>\<open>db.schema.createTable\<close> binds the name to an empty table and fails when
  the name is bound already; no other failure of the storage layer is modelled here.
\<close>

datatype coltype = IntegerPrimary | Integer | String

type_synonym column = "string \<times> coltype"

record stored =
  columns :: "column list"
  rows :: "row list"

type_synonym db = "string \<rightharpoonup> stored"

definition hasTable :: "db \<Rightarrow> string \<Rightarrow> bool" where
  "hasTable d t = (d t \<noteq> None)"

definition createTable :: "db \<Rightarrow> string \<Rightarrow> column list \<Rightarrow> error + db" where
  "createTable d t cols =
     (if hasTable d t then Inl StorageError
      else Inr (d(t \<mapsto> \<lparr>columns = cols, rows = []\<rparr>)))"

definition organizations_columns :: "column list" where
  "organizations_columns =
     [(''id'', IntegerPrimary), (''index'', Integer), (''organization id'', String),
      (''name'', String), (''country'', String), (''founded'', Integer),
      (''website'', String), (''description'', String),
      (''number of employees'', String), (''industry'', String)]"

definition customers_columns :: "column list" where
  "customers_columns =
     [(''id'', IntegerPrimary), (''index'', Integer), (''customer id'', String),
      (''company'', String), (''first name'', String), (''last name'', String),
      (''city'', String), (''phone 1'', String), (''phone 2'', String),
      (''email'', String), (''address'', String), (''country'', String),
      (''website'', String), (''subscription'', String), (''subscription date'', String)]"

text \<open>\<^verbatim>\<open>setupTables\<close> (lines 66-103): check, then create, for each of the two tables.\<close>

definition setupTables :: "db \<Rightarrow> error + db" where
  "setupTables d =
     (case (if \<not> hasTable d ''organizations''
            then createTable d ''organizations'' organizations_columns
            else Inr d) of
        Inl e \<Rightarrow> Inl e
      | Inr d1 \<Rightarrow>
          (if \<not> hasTable d1 ''customers''
           then createTable d1 ''customers'' customers_columns
           else Inr d1))"

section \<open>The fetcher: downloadFile\<close>

text \<open>
  What the network does is an input: the request fails (\<^verbatim>\<open>request.on('error', reject)\<close>),
  or a response arrives with a status code and a body. \<^verbatim>\<open>downloadFile\<close> (lines 16-31)
  pipes the body of whatever response arrives into the file stream and never reads
  \<^verbatim>\<open>response.statusCode\<close>; it resolves when the file stream finishes and rejects when the
  file stream fails while the body is written. The result is the promise and the content of
  the destination file when it is fully written.
\<close>

datatype reply = NoReply | Response nat string

definition downloadFile :: "reply \<Rightarrow> bool \<Rightarrow> promise \<times> string option" where
  "downloadFile r writable =
     (case r of
        NoReply \<Rightarrow> (Rejected NetworkError, None)
      | Response status body \<Rightarrow>
          (if writable then (Resolved, Some body) else (Rejected IOError, None)))"

section \<open>The orchestrator: processDataDump\<close>

text \<open>
  The world of one run: what the network answers, whether the destination can be written,
  how the extraction ends (\<^verbatim>\<open>extractTarGz\<close> is gunzip and tar, taken as given), the lines
  of the two extracted CSV files, the database file as it is when the connection is made,
  and the schedule of events of each of the two loads.
\<close>

record world =
  reply :: reply
  writable :: bool
  extraction :: promise
  organizations_csv :: "string list list"
  customers_csv :: "string list list"
  database :: db
  schedule1 :: "event list"
  schedule2 :: "event list"









section \<open>Runs and invariants of the loader\<close>

lemma run_Nil [simp]: "run [] s = s"
  by (simp add: run_def)

lemma run_Cons [simp]: "run (e # es) s = run es (step e s)"
  by (simp add: run_def)

lemma run_append: "run (es @ fs) s = run fs (run es s)"
  by (simp add: run_def)

lemma run_invariant:
  assumes "P s" and "\<And>e s. P s \<Longrightarrow> P (step e s)"
  shows "P (run sched s)"
  using assms(1)
proof (induction sched arbitrary: s)
  case Nil
  then show ?case by simp
next
  case (Cons e es)
  then show ?case using assms(2) by simp
qed

lemma quiet_append: "quiet k (xs @ ys) = (quiet k xs \<and> quiet (outstanding k xs) ys)"
  by (induction k xs rule: quiet.induct) auto

lemma outstanding_append: "outstanding k (xs @ ys) = outstanding (outstanding k xs) ys"
  by (induction k xs rule: outstanding.induct) auto

lemma reads_append: "reads (xs @ ys) = reads xs @ reads ys"
  by (induction xs rule: reads.induct) auto

lemmas loader_defs = step_def enabled_def emit_def on_data_def on_end_def on_error_def
  insertBatch_def completed_def settle_def

lemma batchSize_step: "batchSize (step e s) = batchSize s"
  by (cases e; cases "source s"; cases "inflight s")
     (auto simp: loader_defs Let_def split: item.splits handler.splits)

lemma batchSize_run: "batchSize (run sched s) = batchSize s"
  by (induction sched arbitrary: s) (simp_all add: batchSize_step)

lemma shape_init: "shape (processCSV items tbl n)"
  by (simp add: shape_def processCSV_def)

lemma shape_step: "shape s \<Longrightarrow> shape (step e s)"
  unfolding shape_def
  by (cases e; cases "source s"; cases "inflight s")
     (auto simp: loader_defs quiet_append outstanding_append Let_def
           split: item.splits handler.splits if_splits list.splits)

lemma shape_run: "shape (run sched (processCSV items tbl n))"
  by (rule run_invariant [OF shape_init shape_step])

lemma bounded_step: "1 \<le> batchSize s \<Longrightarrow> bounded s \<Longrightarrow> bounded (step e s)"
  unfolding bounded_def
  by (cases e; cases "source s"; cases "inflight s")
     (auto simp: loader_defs Let_def split: item.splits handler.splits if_splits)

lemma bounded_run:
  assumes "1 \<le> n"
  shows "bounded (run sched (processCSV items tbl n))"
proof -
  have "batchSize (run sched (processCSV items tbl n)) = n \<and>
        bounded (run sched (processCSV items tbl n))"
  proof (rule run_invariant)
    show "batchSize (processCSV items tbl n) = n \<and> bounded (processCSV items tbl n)"
      using assms by (simp add: processCSV_def bounded_def)
  next
    fix e s
    assume "batchSize s = n \<and> bounded s"
    then show "batchSize (step e s) = n \<and> bounded (step e s)"
      using assms bounded_step [of s e] by (simp add: batchSize_step)
  qed
  then show ?thesis by simp
qed


lemma no_read_while_outstanding:
  "shape s \<Longrightarrow> inflight s \<noteq> [] \<Longrightarrow> reads (trace (step Emit s)) = reads (trace s)"
  unfolding shape_def
  by (cases "source s"; cases "inflight s")
     (auto simp: loader_defs Let_def reads_append split: item.splits if_splits list.splits)









lemma empty_run:
  "run sched (processCSV [] tbl n) =
     (if Emit \<in> set sched then (processCSV [] tbl n)\<lparr>ended := True, result := Resolved\<rparr>
      else processCSV [] tbl n)"
proof -
  let ?i = "processCSV [] tbl n"
  let ?f = "?i\<lparr>ended := True, result := Resolved\<rparr>"
  have i: "step e ?i = (if e = Emit then ?f else ?i)" for e
    by (cases e) (simp_all add: loader_defs processCSV_def)
  have f: "step e ?f = ?f" for e
    by (cases e) (simp_all add: loader_defs processCSV_def)
  have rf: "run es ?f = ?f" for es
    by (induction es) (simp_all add: f)
  show ?thesis
    by (induction sched) (simp_all add: i rf)
qed

lemma stuck_step:
  "\<not> flowing s \<Longrightarrow> source s \<noteq> [] \<Longrightarrow> inflight s = [] \<Longrightarrow> Bad \<notin> set (source s) \<Longrightarrow>
   step e s = s"
  by (cases e) (simp_all add: step_def enabled_def)

lemma stuck_run:
  "\<not> flowing s \<Longrightarrow> source s \<noteq> [] \<Longrightarrow> inflight s = [] \<Longrightarrow> Bad \<notin> set (source s) \<Longrightarrow>
   run sched s = s"
  by (induction sched) (simp_all add: stuck_step)

lemma never_storage_error_step:
  "result s \<noteq> Rejected StorageError \<Longrightarrow> result (step e s) \<noteq> Rejected StorageError"
  by (cases e; cases "source s"; cases "inflight s")
     (auto simp: loader_defs Let_def split: item.splits handler.splits if_splits)







section \<open>The claims about the loader\<close>

text \<open>
  C1. During the load of one source, no row is read from the stream while a bulk insert is
  outstanding: along every schedule of events, for every source, table and batch size, each
  read in the trace happens with no insert outstanding, and in every state with an insert
  outstanding the next event of the stream reads no row. So the insert of batch N is
  answered before any read that contributes to batch N+1. (The end of the stream is not a
  read: it can arrive while an insert is outstanding.)
\<close>

theorem insert_before_next_read:
  fixes sched items tbl n
  defines "s \<equiv> run sched (processCSV items tbl n)"
  shows "quiet 0 (trace s) \<and>
         (inflight s \<noteq> [] \<longrightarrow> reads (trace (step Emit s)) = reads (trace s))"
proof -
  have "shape s" unfolding s_def by (rule shape_run)
  then show ?thesis
    using no_read_while_outstanding [of s] by (simp add: shape_def)
qed

theorem insert_before_next_read_witness:
  "quiet 0 (trace (run [Emit, Emit] (processCSV
      [Row [(''id'', ''1'')], Row [(''id'', ''2'')]] [] 2))) \<and>
   inflight (run [Emit, Emit] (processCSV
      [Row [(''id'', ''1'')], Row [(''id'', ''2'')]] [] 2)) \<noteq> [] \<and>
   enabled Emit (run [Emit, Emit] (processCSV
      [Row [(''id'', ''1'')], Row [(''id'', ''2'')]] [] 2)) \<and>
   reads (trace (step Emit (run [Emit, Emit] (processCSV
      [Row [(''id'', ''1'')], Row [(''id'', ''2'')]] [] 2)))) =
   reads (trace (run [Emit, Emit] (processCSV
      [Row [(''id'', ''1'')], Row [(''id'', ''2'')]] [] 2)))"
  using insert_before_next_read [where sched = "[Emit, Emit]" and tbl = "[]" and n = 2
      and items = "[Row [(''id'', ''1'')], Row [(''id'', ''2'')]]"]
  by (simp add: loader_defs processCSV_def)

text \<open>
  C2. The claim is that a source of R rows is loaded with exactly ceil(R / N) bulk inserts.
  The code issues one more when the end of the stream arrives while the insert of the last
  full batch is outstanding: the \<^verbatim>\<open>'end'\<close> listener finds the batch array not yet cleared
  and inserts it again. With four rows and batch size 2 that run resolves after three
  inserts, of rows 1-2, 3-4 and 3-4 again, where ceil(4 / 2) is 2; the run in which the
  end arrives after the answer issues the two inserts of the claim.
\<close>

theorem end_during_insert_adds_an_insert:
  "result (run [Emit, Emit, Complete True, Emit, Emit, Emit, Complete True, Complete True]
     (processCSV [Row [(''id'', ''1'')], Row [(''id'', ''2'')], Row [(''id'', ''3'')],
        Row [(''id'', ''4'')]] [] 2)) = Resolved \<and>
   inserts (trace (run [Emit, Emit, Complete True, Emit, Emit, Emit, Complete True, Complete True]
     (processCSV [Row [(''id'', ''1'')], Row [(''id'', ''2'')], Row [(''id'', ''3'')],
        Row [(''id'', ''4'')]] [] 2))) =
     [[[(''id'', ''1'')], [(''id'', ''2'')]], [[(''id'', ''3'')], [(''id'', ''4'')]],
      [[(''id'', ''3'')], [(''id'', ''4'')]]] \<and>
   inserts (trace (run [Emit, Emit, Complete True, Emit, Emit, Complete True, Emit]
     (processCSV [Row [(''id'', ''1'')], Row [(''id'', ''2'')], Row [(''id'', ''3'')],
        Row [(''id'', ''4'')]] [] 2))) =
     [[[(''id'', ''1'')], [(''id'', ''2'')]], [[(''id'', ''3'')], [(''id'', ''4'')]]]"
  by (simp add: loader_defs processCSV_def)

text \<open>
  C3. With a batch size N of at least one, the batch array never holds more than N rows, at
  any point of any schedule, whatever the source holds and whatever the storage layer
  answers.
\<close>

theorem accumulator_bounded:
  "1 \<le> n \<Longrightarrow> length (batch (run sched (processCSV items tbl n))) \<le> n"
  using bounded_run [of n sched items tbl] batchSize_run [of sched "processCSV items tbl n"]
  by (simp add: bounded_def processCSV_def)

theorem accumulator_bounded_witness:
  "(1::nat) \<le> 2 \<and>
   length (batch (run [Emit, Emit] (processCSV
      [Row [(''id'', ''1'')], Row [(''id'', ''2'')], Row [(''id'', ''3'')]] [] 2))) \<le> 2"
proof -
  have n: "(1::nat) \<le> 2" by simp
  show ?thesis
    using n accumulator_bounded [OF n, of "[Emit, Emit]"
      "[Row [(''id'', ''1'')], Row [(''id'', ''2'')], Row [(''id'', ''3'')]]" "[]"]
    by blast
qed

text \<open>
  C4. The claim is that every source row is inserted once. The code inserts the last batch
  twice when the end of the stream arrives while the insert of that batch is outstanding:
  with two rows and batch size 1 that run resolves with the table holding row 1, row 2 and
  row 2 again; the run in which the end arrives after the answer stores each row once.
\<close>

theorem end_during_insert_stores_rows_twice:
  "result (run [Emit, Complete True, Emit, Emit, Complete True, Complete True]
     (processCSV [Row [(''id'', ''1'')], Row [(''id'', ''2'')]] [] 1)) = Resolved \<and>
   table (run [Emit, Complete True, Emit, Emit, Complete True, Complete True]
     (processCSV [Row [(''id'', ''1'')], Row [(''id'', ''2'')]] [] 1)) =
     [[(''id'', ''1'')], [(''id'', ''2'')], [(''id'', ''2'')]] \<and>
   table (run [Emit, Complete True, Emit, Complete True, Emit]
     (processCSV [Row [(''id'', ''1'')], Row [(''id'', ''2'')]] [] 1)) =
     [[(''id'', ''1'')], [(''id'', ''2'')]]"
  by (simp add: loader_defs processCSV_def)

text \<open>
  C5. The claim is that a failed bulk insert makes the load fail with a StorageError, leaves
  the earlier batches persisted and reads nothing more. The code does the last two and not
  the first. With three rows and batch size 1, when the second insert fails: the first row
  stays in the table, the third row is never read, the rejection of the listener is
  unhandled and the promise of \<^verbatim>\<open>processCSV\<close> stays pending under every continuation of
  the schedule. In no run at all is that promise rejected with a StorageError.
\<close>

theorem insert_failure_not_reported:
  fixes rest sched items tbl n
  defines "s \<equiv> run ([Emit, Complete True, Emit, Complete False] @ rest)
                  (processCSV [Row [(''id'', ''1'')], Row [(''id'', ''2'')], Row [(''id'', ''3'')]] [] 1)"
  shows "result s = Pending \<and> unhandled s = [StorageError] \<and>
         table s = [[(''id'', ''1'')]] \<and> source s = [Row [(''id'', ''3'')]] \<and>
         reads (trace s) = [[(''id'', ''1'')], [(''id'', ''2'')]] \<and>
         result (run sched (processCSV items tbl n)) \<noteq> Rejected StorageError"
proof -
  define s0 where "s0 = run [Emit, Complete True, Emit, Complete False]
      (processCSV [Row [(''id'', ''1'')], Row [(''id'', ''2'')], Row [(''id'', ''3'')]] [] 1)"
  have s0: "s0 = \<lparr>batchSize = 1, source = [Row [(''id'', ''3'')]], flowing = False,
      ended = False, destroyed = False, batch = [[(''id'', ''2'')]], inflight = [],
      table = [[(''id'', ''1'')]], result = Pending, unhandled = [StorageError],
      trace = [Read [(''id'', ''1'')], InsertStart [[(''id'', ''1'')]], InsertEnd True,
               Read [(''id'', ''2'')], InsertStart [[(''id'', ''2'')]], InsertEnd False]\<rparr>"
    unfolding s0_def by (simp add: loader_defs processCSV_def)
  have "s = run rest s0" unfolding s_def s0_def by (simp only: run_append)
  also have "\<dots> = s0" by (rule stuck_run) (simp_all add: s0)
  finally have s: "s = s0" .
  have "result (run sched (processCSV items tbl n)) \<noteq> Rejected StorageError"
    by (rule run_invariant [where P = "\<lambda>s. result s \<noteq> Rejected StorageError"])
       (simp_all add: never_storage_error_step, simp add: processCSV_def)
  then show ?thesis by (simp add: s s0)
qed



text \<open>
  C9. For a source that is a header row and no data rows, every schedule performs no insert
  and leaves the table as it was, and the promise is resolved as soon as the stream has
  emitted its end; it is never rejected.
\<close>

theorem empty_source_no_insert:
  fixes header sched tbl n
  defines "s \<equiv> run sched (processCSV (csv_parse [header]) tbl n)"
  shows "inserts (trace s) = [] \<and> table s = tbl \<and>
         result s = (if Emit \<in> set sched then Resolved else Pending)"
  unfolding s_def by (simp add: empty_run) (simp add: processCSV_def)

theorem empty_source_no_insert_witness:
  "inserts (trace (run [Emit] (processCSV (csv_parse [[''id'', ''name'']]) [] 100))) = [] \<and>
   table (run [Emit] (processCSV (csv_parse [[''id'', ''name'']]) [] 100)) = [] \<and>
   result (run [Emit] (processCSV (csv_parse [[''id'', ''name'']]) [] 100)) = Resolved"
  using empty_source_no_insert [where header = "[''id'', ''name'']" and sched = "[Emit]"
      and tbl = "[]" and n = 100] by simp

section \<open>The claims about the schema, the fetcher and the orchestrator\<close>

text \<open>
  C8. \<^verbatim>\<open>setupTables\<close> never fails, and a second run after the first succeeds and changes
  nothing: the database after two runs is the database after one. The tables are those that
  were there together with \<open>organizations\<close> and \<open>customers\<close> (exactly these two on an empty
  database), and a table that was there keeps its columns and its rows.
\<close>

theorem setupTables_idempotent:
  "\<exists>d1. setupTables d = Inr d1 \<and> setupTables d1 = Inr d1 \<and>
        dom d1 = dom d \<union> {''organizations'', ''customers''} \<and>
        (\<forall>t. hasTable d t \<longrightarrow> d1 t = d t)"
  by (auto simp: setupTables_def createTable_def hasTable_def dom_def)

theorem setupTables_idempotent_witness:
  "hasTable [''organizations'' \<mapsto> \<lparr>columns = organizations_columns, rows = [[(''id'', ''1'')]]\<rparr>]
     ''organizations'' \<and>
   (\<exists>d1. setupTables [''organizations'' \<mapsto>
            \<lparr>columns = organizations_columns, rows = [[(''id'', ''1'')]]\<rparr>] = Inr d1 \<and>
         setupTables d1 = Inr d1 \<and>
         d1 ''organizations'' =
           Some \<lparr>columns = organizations_columns, rows = [[(''id'', ''1'')]]\<rparr>) \<and>
   (\<exists>d1. setupTables Map.empty = Inr d1 \<and> setupTables d1 = Inr d1 \<and>
         dom d1 = {''organizations'', ''customers''})"
proof -
  let ?d0 = "[''organizations'' \<mapsto>
      \<lparr>columns = organizations_columns, rows = [[(''id'', ''1'')]]\<rparr>]"
  have h: "hasTable ?d0 ''organizations''"
    by (simp add: hasTable_def)
  from setupTables_idempotent [of ?d0] obtain d1 where
    d1: "setupTables ?d0 = Inr d1 \<and> setupTables d1 = Inr d1 \<and>
        dom d1 = dom ?d0 \<union> {''organizations'', ''customers''} \<and>
        (\<forall>t. hasTable ?d0 t \<longrightarrow> d1 t = ?d0 t)" ..
  note a1 = d1 [THEN conjunct1]
    and a2 = d1 [THEN conjunct2, THEN conjunct1]
    and a4 = d1 [THEN conjunct2, THEN conjunct2, THEN conjunct2]
  from a4 have "hasTable ?d0 ''organizations'' \<longrightarrow> d1 ''organizations'' = ?d0 ''organizations''"
    by (rule spec)
  then have "d1 ''organizations'' = ?d0 ''organizations''" using h by (rule mp)
  then have keep: "d1 ''organizations'' =
      Some \<lparr>columns = organizations_columns, rows = [[(''id'', ''1'')]]\<rparr>"
    by simp
  have first: "\<exists>d1. setupTables ?d0 = Inr d1 \<and> setupTables d1 = Inr d1 \<and>
         d1 ''organizations'' =
           Some \<lparr>columns = organizations_columns, rows = [[(''id'', ''1'')]]\<rparr>"
    by (rule exI [of _ d1]) (intro conjI a1 a2 keep)
  from setupTables_idempotent [of Map.empty] obtain d2 where
    d2: "setupTables Map.empty = Inr d2 \<and> setupTables d2 = Inr d2 \<and>
        dom d2 = dom (Map.empty :: db) \<union> {''organizations'', ''customers''} \<and>
        (\<forall>t. hasTable Map.empty t \<longrightarrow> d2 t = Map.empty t)" ..
  note b1 = d2 [THEN conjunct1]
    and b2 = d2 [THEN conjunct2, THEN conjunct1]
    and b3 = d2 [THEN conjunct2, THEN conjunct2, THEN conjunct1]
  from b3 have dom2: "dom d2 = {''organizations'', ''customers''}" by simp
  have second: "\<exists>d1. setupTables Map.empty = Inr d1 \<and> setupTables d1 = Inr d1 \<and>
         dom d1 = {''organizations'', ''customers''}"
    by (rule exI [of _ d2]) (intro conjI b1 b2 dom2)
  show ?thesis
    by (intro conjI h first second)
qed

text \<open>
  C10. \<^verbatim>\<open>downloadFile\<close> resolves for every response whose body is written to the
  destination, whatever its status code: the body of a 404 or a 500 response is what the
  destination file holds, and the promise is resolved, not rejected.
\<close>

theorem download_ignores_status:
  "downloadFile (Response status body) True = (Resolved, Some body)"
  by (simp add: downloadFile_def)

theorem download_ignores_status_witness:
  "downloadFile (Response 404 ''Not Found'') True = (Resolved, Some ''Not Found'') \<and>
   downloadFile (Response 500 ''Internal Server Error'') True = (Resolved, Some ''Internal Server Error'')"
  using download_ignores_status [of 404 "''Not Found''"]
        download_ignores_status [of 500 "''Internal Server Error''"] by simp






end
